theory Spec2Isabelle
  imports Main "HOL-Library.Sublist"
begin

section \<open>The todo view of \<open>src/src/App.tsx\<close>\<close>

text \<open>
  The component \<open>App\<close> holds four pieces of React state (\<open>todos\<close>, \<open>newTodo\<close>,
  \<open>editingId\<close>, \<open>editTitle\<close>) and eight handlers. Each handler is embedded as a function
  on the state. What a handler does to the outside (the requests it sends with \<open>fetch\<close>,
  the lines it writes with \<open>console.error\<close>) is recorded in two further fields of the state
  record, so that "sends no request" is a statement about the state.

  The answer of the network is an argument of every asynchronous handler: the handler is
  run from the click to the settling of its promise against that answer, with no other
  handler in between. A request that the network never answers is not in the model.
  \<open>addTodo\<close> is given a second time in two halves, the part before its first \<open>await\<close>
  and the part behind its last, so that a second click can fall between them.
\<close>

subsection \<open>Data\<close>

text \<open>
  \<open>interface Todo { id: number; title: string; completed: boolean }\<close>.
  The field \<open>id\<close> is called \<open>todo_id\<close> here, \<open>id\<close> being the identity function of HOL.
  A \<open>number\<close> that is an id is an integer (the store assigns integer ids), so \<open>===\<close> on
  ids is equality on \<open>int\<close>.
\<close>

record Todo =
  todo_id :: int
  title :: string
  completed :: bool

text \<open>The five requests the component can send: method, path and body.\<close>

datatype request =
    GET_todos                 \<comment> \<open>\<open>GET /api/todos\<close>\<close>
  | POST_todos string         \<comment> \<open>\<open>POST /api/todos\<close>, body \<open>{title}\<close>\<close>
  | PUT_todo int string       \<comment> \<open>\<open>PUT /api/todos/${id}\<close>, body \<open>{title}\<close>\<close>
  | DELETE_todo int           \<comment> \<open>\<open>DELETE /api/todos/${id}\<close>\<close>
  | PATCH_toggle int          \<comment> \<open>\<open>PATCH /api/todos/${id}/toggle\<close>\<close>

record App =
  todos :: "Todo list"
  newTodo :: string
  editingId :: "int option"   \<comment> \<open>\<open>number | null\<close>\<close>
  editTitle :: string
  network :: "request list"   \<comment> \<open>the requests sent so far, oldest first\<close>
  console :: "string list"    \<comment> \<open>the lines written by \<open>console.error\<close>\<close>

text \<open>
  How \<open>await fetch(...)\<close> followed by \<open>await res.json()\<close> can settle: \<open>fetch\<close> rejects
  (no connection), \<open>res.json()\<close> rejects (the body is not JSON), or a value is parsed.
  The type of the parsed value is the one the source declares for \<open>data\<close>.
\<close>

datatype 'a reply = FetchFails | BodyNotJson | Body 'a

text \<open>
  \<open>fetchTodos\<close> declares \<open>data: Todo[]\<close> and then tests \<open>Array.isArray(data)\<close>: the parsed
  value is an array of items, or something that is not an array.
\<close>

datatype listing = JsonArray "Todo list" | JsonOther

datatype fault = NetworkError | SyntaxError

text \<open>How the promise of an \<open>async\<close> handler settles.\<close>

datatype settle = Fulfilled | Rejected fault

subsection \<open>JavaScript primitives\<close>

text \<open>
  \<open>String.prototype.trim\<close> removes white space and line terminators at both ends. Of
  these, the code units below 256 are tab, line feed, vertical tab, form feed, carriage
  return, space and no-break space; a \<open>char\<close> holds no other.
\<close>

definition isWhiteSpace :: "char \<Rightarrow> bool" where
  "isWhiteSpace c = (of_char c \<in> {9, 10, 11, 12, 13, 32, 160 :: nat})"

definition trim :: "string \<Rightarrow> string" where
  "trim s = rev (dropWhile isWhiteSpace (rev (dropWhile isWhiteSpace s)))"

text \<open>A string that \<open>trim\<close> empties: every code unit of it is white space.\<close>

definition whitespace_only :: "string \<Rightarrow> bool" where
  "whitespace_only s = list_all isWhiteSpace s"

text \<open>Truthiness: a string is falsy when empty, a number when zero, \<open>null\<close> always.\<close>

definition truthy_string :: "string \<Rightarrow> bool" where
  "truthy_string s = (s \<noteq> [])"

definition truthy_number :: "int \<Rightarrow> bool" where
  "truthy_number n = (n \<noteq> 0)"

fun truthy_id :: "int option \<Rightarrow> bool" where
  "truthy_id None = False"
| "truthy_id (Some n) = truthy_number n"

subsection \<open>The network\<close>

definition send :: "request \<Rightarrow> App \<Rightarrow> App" where
  "send q s = s\<lparr>network := network s @ [q]\<rparr>"

text \<open>\<open>await fetch(...)\<close> alone, as in \<open>deleteTodo\<close>: the body is never read.\<close>

fun fetched :: "'a reply \<Rightarrow> fault + unit" where
  "fetched FetchFails = Inl NetworkError"
| "fetched BodyNotJson = Inr ()"
| "fetched (Body d) = Inr ()"

text \<open>\<open>await fetch(...)\<close> and then \<open>await res.json()\<close>.\<close>

fun json :: "'a reply \<Rightarrow> fault + 'a" where
  "json FetchFails = Inl NetworkError"
| "json BodyNotJson = Inl SyntaxError"
| "json (Body d) = Inr d"

subsection \<open>The updaters given to \<open>setTodos\<close>\<close>

text \<open>
  \<open>prev => [...prev, data]\<close>, \<open>prev => prev.map(t => (t.id === data.id ? data : t))\<close> and
  \<open>prev => prev.filter(t => t.id !== id)\<close>.
\<close>

definition appended :: "Todo \<Rightarrow> Todo list \<Rightarrow> Todo list" where
  "appended data prev = prev @ [data]"

definition replaced :: "Todo \<Rightarrow> Todo list \<Rightarrow> Todo list" where
  "replaced data prev = map (\<lambda>t. if todo_id t = todo_id data then data else t) prev"

definition removed :: "int \<Rightarrow> Todo list \<Rightarrow> Todo list" where
  "removed i prev = filter (\<lambda>t. todo_id t \<noteq> i) prev"

definition setTodos :: "(Todo list \<Rightarrow> Todo list) \<Rightarrow> App \<Rightarrow> App" where
  "setTodos f s = s\<lparr>todos := f (todos s)\<rparr>"

definition setNewTodo :: "string \<Rightarrow> App \<Rightarrow> App" where
  "setNewTodo v s = s\<lparr>newTodo := v\<rparr>"

definition setEditingId :: "int option \<Rightarrow> App \<Rightarrow> App" where
  "setEditingId v s = s\<lparr>editingId := v\<rparr>"

definition setEditTitle :: "string \<Rightarrow> App \<Rightarrow> App" where
  "setEditTitle v s = s\<lparr>editTitle := v\<rparr>"

subsection \<open>The handlers\<close>

text \<open>
  \<open>fetchTodos\<close>: both awaits are inside \<open>try\<close>, so either rejection reaches the
  \<open>catch\<close>, which logs and empties the list. The promise is fulfilled in every case.
\<close>

definition fetchTodos :: "listing reply \<Rightarrow> App \<Rightarrow> settle \<times> App" where
  "fetchTodos r s =
     (let s1 = send GET_todos s in
      case json r of
        Inr data \<Rightarrow>
          (Fulfilled,
           setTodos (\<lambda>_. case data of JsonArray xs \<Rightarrow> xs | JsonOther \<Rightarrow> []) s1)
      | Inl error \<Rightarrow>
          (Fulfilled,
           setTodos (\<lambda>_. []) (s1\<lparr>console := console s1 @ [''Failed to fetch todos:'']\<rparr>)))"

text \<open>
  The other four asynchronous handlers have no \<open>try\<close>: a rejected await rejects the
  handler at that point, after the request has gone out and before any setter has run.
  \<open>addTodo\<close> returns at once, without a request, when \<open>!newTodo\<close>. \<open>deleteTodo\<close> awaits
  \<open>fetch\<close> only. \<open>updateTodo\<close> and \<open>toggleTodo\<close> use their \<open>id\<close> in the request and
  \<open>data.id\<close> in the updater.
\<close>

definition addTodo :: "Todo reply \<Rightarrow> App \<Rightarrow> settle \<times> App" where
  "addTodo r s =
     (if \<not> truthy_string (newTodo s) then (Fulfilled, s)
      else
        let s1 = send (POST_todos (newTodo s)) s in
        case json r of
          Inl e \<Rightarrow> (Rejected e, s1)
        | Inr data \<Rightarrow> (Fulfilled, setNewTodo [] (setTodos (appended data) s1)))"

definition updateTodo :: "int \<Rightarrow> string \<Rightarrow> Todo reply \<Rightarrow> App \<Rightarrow> settle \<times> App" where
  "updateTodo i ttl r s =
     (let s1 = send (PUT_todo i ttl) s in
      case json r of
        Inl e \<Rightarrow> (Rejected e, s1)
      | Inr data \<Rightarrow> (Fulfilled, setTodos (replaced data) s1))"

definition deleteTodo :: "int \<Rightarrow> 'a reply \<Rightarrow> App \<Rightarrow> settle \<times> App" where
  "deleteTodo i r s =
     (let s1 = send (DELETE_todo i) s in
      case fetched r of
        Inl e \<Rightarrow> (Rejected e, s1)
      | Inr _ \<Rightarrow> (Fulfilled, setTodos (removed i) s1))"

definition toggleTodo :: "int \<Rightarrow> Todo reply \<Rightarrow> App \<Rightarrow> settle \<times> App" where
  "toggleTodo i r s =
     (let s1 = send (PATCH_toggle i) s in
      case json r of
        Inl e \<Rightarrow> (Rejected e, s1)
      | Inr data \<Rightarrow> (Fulfilled, setTodos (replaced data) s1))"

definition startEdit :: "Todo \<Rightarrow> App \<Rightarrow> App" where
  "startEdit todo s = setEditTitle (title todo) (setEditingId (Some (todo_id todo)) s)"

text \<open>
  \<open>saveEdit\<close>: the two setters stand after \<open>await updateTodo(...)\<close> with no \<open>try\<close>
  around it, so a rejection of \<open>updateTodo\<close> leaves them unexecuted and rejects
  \<open>saveEdit\<close>. There is no \<open>else\<close>. \<open>the\<close> is applied to \<open>editingId\<close> behind the
  test that it is not \<open>null\<close>.
\<close>

definition saveEdit :: "Todo reply \<Rightarrow> App \<Rightarrow> settle \<times> App" where
  "saveEdit r s =
     (if truthy_id (editingId s) \<and> truthy_string (trim (editTitle s)) then
        (case updateTodo (the (editingId s)) (trim (editTitle s)) r s of
           (Rejected e, s1) \<Rightarrow> (Rejected e, s1)
         | (Fulfilled, s1) \<Rightarrow> (Fulfilled, setEditTitle [] (setEditingId None s1)))
      else (Fulfilled, s))"

definition cancelEdit :: "App \<Rightarrow> App" where
  "cancelEdit s = setEditTitle [] (setEditingId None s)"

subsection \<open>Runs of several handlers\<close>

text \<open>
  \<open>addTodo\<close> cut at its awaits. Up to \<open>await fetch(...)\<close> it tests the draft and sends
  the request, then it is suspended: \<open>addTodo_call\<close> (\<open>None\<close> when it returned at the
  test). Nothing disables the button meanwhile. Behind \<open>await res.json()\<close> it runs the two
  setters on the state of that moment, or rejects: \<open>addTodo_settle\<close>.
\<close>

definition addTodo_call :: "App \<Rightarrow> App option" where
  "addTodo_call s =
     (if \<not> truthy_string (newTodo s) then None
      else Some (send (POST_todos (newTodo s)) s))"

definition addTodo_settle :: "Todo reply \<Rightarrow> App \<Rightarrow> settle \<times> App" where
  "addTodo_settle r s =
     (case json r of
        Inl e \<Rightarrow> (Rejected e, s)
      | Inr data \<Rightarrow> (Fulfilled, setNewTodo [] (setTodos (appended data) s)))"

text \<open>
  What can happen to the view, one after the other: the user types a title into the input
  (\<open>onChange={e => setNewTodo(e.target.value)}\<close>) and clicks \<open>Add\<close>, or the answer to a
  suspended \<open>addTodo\<close> arrives. \<open>play\<close> runs such events in the order given and counts
  the suspended calls; an answer with no call suspended runs nothing.
\<close>

datatype event = Click string | Settle "Todo reply"

fun play :: "event list \<Rightarrow> nat \<times> App \<Rightarrow> nat \<times> App" where
  "play [] w = w"
| "play (Click t # es) (n, s) =
     (case addTodo_call (setNewTodo t s) of
        None \<Rightarrow> play es (n, setNewTodo t s)
      | Some s1 \<Rightarrow> play es (Suc n, s1))"
| "play (Settle r # es) (n, s) =
     (if n = 0 then play es (n, s)
      else play es (n - 1, snd (addTodo_settle r s)))"

text \<open>The events of adds made one at a time: each is answered before the next click.\<close>

definition serial :: "(string \<times> Todo) list \<Rightarrow> event list" where
  "serial cs = concat (map (\<lambda>c. [Click (fst c), Settle (Body (snd c))]) cs)"

text \<open>
  Where the item at index \<open>k\<close> of \<open>prev\<close> stands after \<open>removed i\<close>, when it is kept:
  behind the kept items that stood before it.
\<close>

definition index_after_removed :: "int \<Rightarrow> Todo list \<Rightarrow> nat \<Rightarrow> nat" where
  "index_after_removed i prev k = length (removed i (take k prev))"

subsection \<open>A sample state\<close>

text \<open>Four items, and the view after a load that returned the first two.\<close>

definition milk :: Todo where
  "milk = \<lparr>todo_id = 1, title = ''Buy milk'', completed = False\<rparr>"

definition eggs :: Todo where
  "eggs = \<lparr>todo_id = 2, title = ''Buy eggs'', completed = False\<rparr>"

definition tea :: Todo where
  "tea = \<lparr>todo_id = 3, title = ''Buy tea'', completed = False\<rparr>"

definition cocoa :: Todo where
  "cocoa = \<lparr>todo_id = 4, title = ''Buy cocoa'', completed = False\<rparr>"

definition booted :: App where
  "booted = \<lparr>todos = [milk, eggs], newTodo = [], editingId = None, editTitle = [],
              network = [GET_todos], console = []\<rparr>"

section \<open>Properties\<close>

subsection \<open>Simplification rules of the embedding\<close>

lemmas setters =
  send_def setTodos_def setNewTodo_def setEditingId_def setEditTitle_def

lemma trim_empty_iff: "trim s = [] \<longleftrightarrow> (\<forall>c \<in> set s. isWhiteSpace c)"
proof -
  have "trim s = [] \<longleftrightarrow> dropWhile isWhiteSpace (rev (dropWhile isWhiteSpace s)) = []"
    by (simp add: trim_def)
  also have "\<dots> \<longleftrightarrow> (\<forall>c \<in> set (dropWhile isWhiteSpace s). isWhiteSpace c)"
    by simp
  also have "\<dots> \<longleftrightarrow> (\<forall>c \<in> set s. isWhiteSpace c)"
  proof
    assume a: "\<forall>c \<in> set (dropWhile isWhiteSpace s). isWhiteSpace c"
    show "\<forall>c \<in> set s. isWhiteSpace c"
    proof (cases "dropWhile isWhiteSpace s")
      case Nil
      then show ?thesis by simp
    next
      case (Cons x xs)
      then have "\<not> isWhiteSpace x" using hd_dropWhile [of isWhiteSpace s] by auto
      moreover have "x \<in> set (dropWhile isWhiteSpace s)" using Cons by simp
      ultimately show ?thesis using a by blast
    qed
  next
    assume "\<forall>c \<in> set s. isWhiteSpace c"
    then show "\<forall>c \<in> set (dropWhile isWhiteSpace s). isWhiteSpace c"
      by (meson set_dropWhileD)
  qed
  finally show ?thesis .
qed

lemma trim_blank: "truthy_string (trim s) \<longleftrightarrow> \<not> whitespace_only s"
  by (simp add: truthy_string_def trim_empty_iff whitespace_only_def list_all_iff)

text \<open>What each handler returns when its request is answered as the handler needs.\<close>

lemma addTodo_empty_draft: "newTodo s = [] \<Longrightarrow> addTodo r s = (Fulfilled, s)"
  by (simp add: addTodo_def truthy_string_def)

lemma addTodo_fulfilled:
  "newTodo s \<noteq> [] \<Longrightarrow>
   addTodo (Body d) s =
     (Fulfilled, s\<lparr>todos := todos s @ [d], newTodo := [],
                   network := network s @ [POST_todos (newTodo s)]\<rparr>)"
  by (simp add: addTodo_def truthy_string_def appended_def setters)

lemma updateTodo_fulfilled:
  "updateTodo i ttl (Body d) s =
     (Fulfilled, s\<lparr>todos := replaced d (todos s), network := network s @ [PUT_todo i ttl]\<rparr>)"
  by (simp add: updateTodo_def setters)

lemma toggleTodo_fulfilled:
  "toggleTodo i (Body d) s =
     (Fulfilled, s\<lparr>todos := replaced d (todos s), network := network s @ [PATCH_toggle i]\<rparr>)"
  by (simp add: toggleTodo_def setters)

lemma deleteTodo_fulfilled:
  "r \<noteq> FetchFails \<Longrightarrow>
   deleteTodo i r s =
     (Fulfilled, s\<lparr>todos := removed i (todos s), network := network s @ [DELETE_todo i]\<rparr>)"
  by (cases r) (simp_all add: deleteTodo_def setters)

text \<open>
  The id 0 is falsy in \<open>editingId && ...\<close>: with the item of id 0 under edit, \<open>saveEdit\<close>
  does nothing, whatever the draft.
\<close>

lemma saveEdit_id_zero: "editingId s = Some 0 \<Longrightarrow> saveEdit r s = (Fulfilled, s)"
  by (simp add: saveEdit_def truthy_number_def)

subsection \<open>Lists\<close>

lemma replaced_length: "length (replaced d xs) = length xs"
  by (simp add: replaced_def)

lemma replaced_nth:
  "k < length xs \<Longrightarrow>
   replaced d xs ! k = (if todo_id (xs ! k) = todo_id d then d else xs ! k)"
  by (simp add: replaced_def)

lemma replaced_unmatched: "\<forall>t \<in> set xs. todo_id t \<noteq> todo_id d \<Longrightarrow> replaced d xs = xs"
  by (simp add: replaced_def map_idI)

lemma count_list_filter_if:
  "count_list (filter P xs) t = (if P t then count_list xs t else 0)"
  by (induction xs) auto

lemma filter_drops_one:
  "distinct (map f xs) \<Longrightarrow> i \<in> f ` set xs \<Longrightarrow>
   Suc (length (filter (\<lambda>t. f t \<noteq> i) xs)) = length xs"
proof (induction xs)
  case Nil
  then show ?case by simp
next
  case (Cons x xs)
  show ?case
  proof (cases "f x = i")
    case True
    from Cons.prems(1) have "f x \<notin> f ` set xs" by simp
    with True have "\<forall>t \<in> set xs. f t \<noteq> i" by (metis imageI)
    then have "filter (\<lambda>t. f t \<noteq> i) xs = xs" by simp
    with True show ?thesis by simp
  next
    case False
    with Cons.prems have "i \<in> f ` set xs" and "distinct (map f xs)" by auto
    with Cons.IH False show ?thesis by simp
  qed
qed

text \<open>
  A kept element of index \<open>k\<close> stands, after \<open>filter\<close>, behind the kept elements of the
  first \<open>k\<close>; and that position grows with \<open>k\<close>.
\<close>

lemma filter_nth_kept:
  assumes "k < length xs" and "P (xs ! k)"
  shows "length (filter P (take k xs)) < length (filter P xs)
       \<and> filter P xs ! length (filter P (take k xs)) = xs ! k"
proof -
  have "xs = take k xs @ xs ! k # drop (Suc k) xs"
    using assms(1) by (rule id_take_nth_drop)
  then have "filter P xs = filter P (take k xs @ xs ! k # drop (Suc k) xs)" by simp
  also have "\<dots> = filter P (take k xs) @ xs ! k # filter P (drop (Suc k) xs)"
    using assms(2) by simp
  finally have eq: "filter P xs = filter P (take k xs) @ xs ! k # filter P (drop (Suc k) xs)" .
  have "length (filter P xs)
      = length (filter P (take k xs)) + Suc (length (filter P (drop (Suc k) xs)))"
    using arg_cong [OF eq, of length] by simp
  then have a: "length (filter P (take k xs)) < length (filter P xs)" by simp
  have "(filter P (take k xs) @ xs ! k # filter P (drop (Suc k) xs))
          ! length (filter P (take k xs)) = xs ! k"
    by (rule nth_append_length)
  with eq have b: "filter P xs ! length (filter P (take k xs)) = xs ! k" by simp
  from a b show ?thesis ..
qed

lemma filter_take_mono:
  assumes "k < l" and "l \<le> length xs" and "P (xs ! k)"
  shows "length (filter P (take k xs)) < length (filter P (take l xs))"
proof -
  have "k < length (take l xs)" using assms(1,2) by simp
  moreover have "P (take l xs ! k)" using assms(1,3) by simp
  ultimately have "length (filter P (take k (take l xs))) < length (filter P (take l xs))"
    using filter_nth_kept [of k "take l xs" P] by blast
  moreover have "take k (take l xs) = take k xs" using assms(1) by (simp add: min_def)
  ultimately show ?thesis by simp
qed

subsection \<open>Adds, whole and in halves\<close>

text \<open>\<open>addTodo\<close> is its two halves run one behind the other.\<close>

lemma addTodo_split:
  "addTodo r s = (case addTodo_call s of None \<Rightarrow> (Fulfilled, s) | Some s1 \<Rightarrow> addTodo_settle r s1)"
  by (simp add: addTodo_def addTodo_call_def addTodo_settle_def Let_def)

lemma play_append: "play (es @ fs) w = play fs (play es w)"
proof (induction es w rule: play.induct)
  case (1 w)
  then show ?case by simp
next
  case (2 t es n s)
  then show ?case by (simp split: option.splits)
next
  case (3 r es n s)
  then show ?case by simp
qed

lemma play_click_settle:
  "play [Click t, Settle r] (0, s) = (0, snd (addTodo r (setNewTodo t s)))"
  by (simp add: addTodo_split split: option.splits)

text \<open>A run of adds with non-empty titles, made one at a time, from any state.\<close>

lemma play_serial:
  "\<forall>c \<in> set cs. fst c \<noteq> [] \<Longrightarrow>
   play (serial cs) (0, s) =
     (0, s\<lparr>todos := todos s @ map snd cs,
            newTodo := (if cs = [] then newTodo s else []),
            network := network s @ map (\<lambda>c. POST_todos (fst c)) cs\<rparr>)"
proof (induction cs arbitrary: s)
  case Nil
  then show ?case by (simp add: serial_def)
next
  case (Cons c cs)
  have ser: "serial (c # cs) = [Click (fst c), Settle (Body (snd c))] @ serial cs"
    by (simp add: serial_def)
  have "newTodo (setNewTodo (fst c) s) \<noteq> []" using Cons.prems by (simp add: setNewTodo_def)
  then have step: "snd (addTodo (Body (snd c)) (setNewTodo (fst c) s))
      = s\<lparr>todos := todos s @ [snd c], newTodo := [],
           network := network s @ [POST_todos (fst c)]\<rparr>"
    by (simp add: addTodo_fulfilled setNewTodo_def)
  from Cons.prems have "\<forall>c \<in> set cs. fst c \<noteq> []" by simp
  from Cons.IH [OF this] show ?case
    by (simp only: ser play_append play_click_settle step) simp
qed

subsection \<open>Load\<close>

text \<open>
  C3. However the request settles, the promise of \<open>fetchTodos\<close> is fulfilled (nothing
  is thrown to the caller), one \<open>GET /api/todos\<close> has been sent, and the list is one of
  two things: the parsed array when the body parsed to an array, and the empty list in
  every other case (\<open>fetch\<close> rejected, the body was not JSON, the parsed value was not an
  array). The two rejections are logged; the drafts and \<open>editingId\<close> are not touched.
\<close>

theorem C3_load_outcomes:
  "fst (fetchTodos r s) = Fulfilled
   \<and> todos (snd (fetchTodos r s)) = (case r of Body (JsonArray xs) \<Rightarrow> xs | _ \<Rightarrow> [])
   \<and> network (snd (fetchTodos r s)) = network s @ [GET_todos]
   \<and> console (snd (fetchTodos r s)) =
       (case r of Body _ \<Rightarrow> console s | _ \<Rightarrow> console s @ [''Failed to fetch todos:''])
   \<and> newTodo (snd (fetchTodos r s)) = newTodo s
   \<and> editingId (snd (fetchTodos r s)) = editingId s
   \<and> editTitle (snd (fetchTodos r s)) = editTitle s"
  by (cases r) (simp_all add: fetchTodos_def setters split: listing.splits)

subsection \<open>Edit mode\<close>

text \<open>
  C8. \<open>startEdit\<close> of any item followed at once by \<open>cancelEdit\<close>, from any state: the list
  is the one before, \<open>editingId\<close> is \<open>null\<close> and the edit draft is empty (edit mode is
  idle), no request has been sent by either handler, and the draft of a new item and the
  console are untouched as well.
\<close>

theorem C8_start_cancel_roundtrip:
  "cancelEdit (startEdit item s) = s\<lparr>editingId := None, editTitle := []\<rparr>
   \<and> todos (cancelEdit (startEdit item s)) = todos s
   \<and> editingId (cancelEdit (startEdit item s)) = None
   \<and> editTitle (cancelEdit (startEdit item s)) = []
   \<and> network (startEdit item s) = network s
   \<and> network (cancelEdit (startEdit item s)) = network s
   \<and> newTodo (cancelEdit (startEdit item s)) = newTodo s"
  by (simp add: cancelEdit_def startEdit_def setters)

text \<open>
  C5, as the code has it. When the edit draft is white space only, \<open>saveEdit\<close> does
  nothing at all: no request is sent, the list (and so the title of the item under edit)
  is the one before, and \<open>editingId\<close> and the draft keep their values; edit mode is left
  only by \<open>cancelEdit\<close> or by a save with a title.
\<close>

theorem C5_blank_save_changes_nothing:
  assumes "whitespace_only (editTitle s)"
  shows "saveEdit r s = (Fulfilled, s)"
  using assms by (simp add: saveEdit_def trim_blank)

theorem C5_blank_save_changes_nothing_witness:
  "whitespace_only (editTitle (booted\<lparr>editingId := Some 1, editTitle := ''  ''\<rparr>))
   \<and> saveEdit FetchFails (booted\<lparr>editingId := Some 1, editTitle := ''  ''\<rparr>)
       = (Fulfilled, booted\<lparr>editingId := Some 1, editTitle := ''  ''\<rparr>)"
proof -
  have h: "whitespace_only (editTitle (booted\<lparr>editingId := Some 1, editTitle := ''  ''\<rparr>))"
    by (simp add: whitespace_only_def isWhiteSpace_def)
  show ?thesis using h C5_blank_save_changes_nothing [OF h, of FetchFails] by simp
qed

text \<open>
  The claim has \<open>editingId\<close> cleared by such a save. With item 1 under edit and a draft
  of two spaces, \<open>editingId\<close> is still 1 after \<open>saveEdit\<close>.
\<close>

theorem C5_counterexample:
  "whitespace_only (editTitle (booted\<lparr>editingId := Some 1, editTitle := ''  ''\<rparr>))
   \<and> editingId (snd (saveEdit (Body milk) (booted\<lparr>editingId := Some 1, editTitle := ''  ''\<rparr>)))
       = Some 1"
  by (simp add: saveEdit_def trim_def whitespace_only_def isWhiteSpace_def truthy_string_def)

text \<open>
  C4, as the code has it. With an id other than 0 under edit and a draft that is not white
  space only, \<open>saveEdit\<close> sends the rename with the trimmed draft. When the answer parses,
  \<open>editingId\<close> and the draft are cleared and the list is patched. When \<open>fetch\<close> or
  \<open>res.json()\<close> rejects, \<open>saveEdit\<close> rejects with the same fault before it reaches
  the two setters: \<open>editingId\<close>, the draft and the list keep their values.
\<close>

theorem C4_save_clears_when_rename_fulfils:
  assumes "editingId s = Some i" and "i \<noteq> 0" and "\<not> whitespace_only (editTitle s)"
  shows "saveEdit (Body d) s =
           (Fulfilled, s\<lparr>todos := replaced d (todos s), editingId := None, editTitle := [],
                         network := network s @ [PUT_todo i (trim (editTitle s))]\<rparr>)
         \<and> saveEdit FetchFails s =
           (Rejected NetworkError, s\<lparr>network := network s @ [PUT_todo i (trim (editTitle s))]\<rparr>)
         \<and> saveEdit BodyNotJson s =
           (Rejected SyntaxError, s\<lparr>network := network s @ [PUT_todo i (trim (editTitle s))]\<rparr>)"
  using assms
  by (simp add: saveEdit_def updateTodo_def trim_blank truthy_number_def setters)

theorem C4_save_clears_when_rename_fulfils_witness:
  "editingId (booted\<lparr>editingId := Some 1, editTitle := '' Buy oat milk ''\<rparr>) = Some 1
   \<and> (1::int) \<noteq> 0
   \<and> \<not> whitespace_only (editTitle (booted\<lparr>editingId := Some 1, editTitle := '' Buy oat milk ''\<rparr>))
   \<and> saveEdit (Body (milk\<lparr>title := ''Buy oat milk''\<rparr>))
        (booted\<lparr>editingId := Some 1, editTitle := '' Buy oat milk ''\<rparr>)
      = (Fulfilled,
         booted\<lparr>todos := [milk\<lparr>title := ''Buy oat milk''\<rparr>, eggs],
                network := [GET_todos, PUT_todo 1 ''Buy oat milk'']\<rparr>)
   \<and> saveEdit FetchFails (booted\<lparr>editingId := Some 1, editTitle := '' Buy oat milk ''\<rparr>)
      = (Rejected NetworkError,
         booted\<lparr>editingId := Some 1, editTitle := '' Buy oat milk '',
                network := [GET_todos, PUT_todo 1 ''Buy oat milk'']\<rparr>)"
proof -
  have h1: "editingId (booted\<lparr>editingId := Some 1, editTitle := '' Buy oat milk ''\<rparr>) = Some 1"
    by simp
  have h2: "(1::int) \<noteq> 0" by simp
  have h3: "\<not> whitespace_only (editTitle (booted\<lparr>editingId := Some 1, editTitle := '' Buy oat milk ''\<rparr>))"
    by (simp add: whitespace_only_def isWhiteSpace_def)
  have tr: "trim '' Buy oat milk '' = ''Buy oat milk''"
    by (simp add: trim_def isWhiteSpace_def)
  have ids: "todo_id milk = 1" "todo_id eggs = 2" by (simp_all add: milk_def eggs_def)
  show ?thesis
    using h3 C4_save_clears_when_rename_fulfils [OF h1 h2 h3, of "milk\<lparr>title := ''Buy oat milk''\<rparr>"]
    by (simp add: tr booted_def replaced_def ids)
qed

text \<open>
  The claim has the edit state cleared whether or not the rename succeeded. With item 1
  under edit, a draft \<open>Buy oat milk\<close> and a \<open>fetch\<close> that rejects, \<open>editingId\<close> is still
  1 and the draft is still there after \<open>saveEdit\<close>.
\<close>

theorem C4_counterexample:
  "editingId (booted\<lparr>editingId := Some 1, editTitle := ''Buy oat milk''\<rparr>) = Some 1
   \<and> \<not> whitespace_only (editTitle (booted\<lparr>editingId := Some 1, editTitle := ''Buy oat milk''\<rparr>))
   \<and> editingId (snd (saveEdit FetchFails (booted\<lparr>editingId := Some 1, editTitle := ''Buy oat milk''\<rparr>)))
       = Some 1
   \<and> editTitle (snd (saveEdit FetchFails (booted\<lparr>editingId := Some 1, editTitle := ''Buy oat milk''\<rparr>)))
       = ''Buy oat milk''"
  by (simp add: saveEdit_def updateTodo_def trim_def whitespace_only_def isWhiteSpace_def
      truthy_string_def truthy_number_def setters)

subsection \<open>Add\<close>

text \<open>
  C2 holds for the empty draft (\<open>addTodo_empty_draft\<close>: nothing is sent, nothing
  changes). For a draft of white space it does not: \<open>!newTodo\<close> is false for a draft of
  one space, so \<open>addTodo\<close> posts the title \<open>" "\<close>, appends the item that comes back and
  clears the draft. \<open>saveEdit\<close> tests \<open>editTitle.trim()\<close>; \<open>addTodo\<close> tests the draft
  untrimmed.
\<close>

theorem C2_blank_draft_is_posted:
  "whitespace_only (newTodo (booted\<lparr>newTodo := '' ''\<rparr>))
   \<and> addTodo (Body (tea\<lparr>title := '' ''\<rparr>)) (booted\<lparr>newTodo := '' ''\<rparr>)
     = (Fulfilled,
        booted\<lparr>todos := [milk, eggs, tea\<lparr>title := '' ''\<rparr>],
               newTodo := [], network := [GET_todos, POST_todos '' '']\<rparr>)"
  by (simp add: addTodo_def truthy_string_def appended_def setters booted_def
      whitespace_only_def isWhiteSpace_def)

text \<open>
  C6, as the code has it. When adds with non-empty titles are made one at a time, each
  answered with an item before the next click, the list at the end is the list at the
  start followed by the returned items in the order of the calls, one \<open>POST\<close> has been
  sent per call, in that order, no call is left suspended, and the draft is empty after
  the run. One add with a non-empty draft appends the returned item at the tail and clears
  the draft.
\<close>

theorem C6_serial_adds_append_in_call_order:
  assumes "\<forall>c \<in> set cs. fst c \<noteq> []"
  shows "fst (play (serial cs) (0, s)) = 0
       \<and> todos (snd (play (serial cs) (0, s))) = todos s @ map snd cs
       \<and> network (snd (play (serial cs) (0, s)))
           = network s @ map (\<lambda>c. POST_todos (fst c)) cs
       \<and> (cs \<noteq> [] \<longrightarrow> newTodo (snd (play (serial cs) (0, s))) = [])
       \<and> (newTodo s \<noteq> [] \<longrightarrow>
            addTodo (Body d) s =
              (Fulfilled, s\<lparr>todos := todos s @ [d], newTodo := [],
                            network := network s @ [POST_todos (newTodo s)]\<rparr>))"
  using play_serial [OF assms, of s] by (simp add: addTodo_fulfilled)

theorem C6_serial_adds_append_in_call_order_witness:
  "list_all (\<lambda>c. fst c \<noteq> []) [(''Buy tea'', tea), (''Buy cocoa'', cocoa)]
   \<and> serial [(''Buy tea'', tea), (''Buy cocoa'', cocoa)]
       = [Click ''Buy tea'', Settle (Body tea), Click ''Buy cocoa'', Settle (Body cocoa)]
   \<and> todos (snd (play (serial [(''Buy tea'', tea), (''Buy cocoa'', cocoa)])
                   (0, booted\<lparr>newTodo := ''Buy tea''\<rparr>)))
       = [milk, eggs, tea, cocoa]
   \<and> newTodo (snd (play (serial [(''Buy tea'', tea), (''Buy cocoa'', cocoa)])
                     (0, booted\<lparr>newTodo := ''Buy tea''\<rparr>))) = []
   \<and> todos (snd (addTodo (Body tea) (booted\<lparr>newTodo := ''Buy tea''\<rparr>))) = [milk, eggs, tea]
   \<and> newTodo (snd (addTodo (Body tea) (booted\<lparr>newTodo := ''Buy tea''\<rparr>))) = []"
proof -
  have h: "\<forall>c \<in> set [(''Buy tea'', tea), (''Buy cocoa'', cocoa)]. fst c \<noteq> []" by simp
  show ?thesis
    using C6_serial_adds_append_in_call_order [OF h, of "booted\<lparr>newTodo := ''Buy tea''\<rparr>" tea]
    by (simp add: booted_def serial_def)
qed

text \<open>
  The claim speaks of every sequence of successful adds. Two adds can overlap: the user
  adds \<open>Buy tea\<close> and then \<open>Buy cocoa\<close> before any answer has come, and the store
  answers the second request first. Each answer is appended when it arrives, so the list
  ends with cocoa before tea, against the order of the calls that the request log shows.
\<close>

theorem C6_counterexample:
  "play [Click ''Buy tea'', Click ''Buy cocoa'', Settle (Body cocoa), Settle (Body tea)]
        (0, booted)
     = (0, booted\<lparr>todos := [milk, eggs, cocoa, tea],
                   network := [GET_todos, POST_todos ''Buy tea'', POST_todos ''Buy cocoa'']\<rparr>)
   \<and> [milk, eggs, cocoa, tea] \<noteq> todos booted @ [tea, cocoa]"
  by (simp add: addTodo_call_def addTodo_settle_def truthy_string_def appended_def setters
      booted_def tea_def cocoa_def)

subsection \<open>Rename and toggle\<close>

text \<open>
  C1. After a rename or a toggle whose answer parses to an item, the list has the length
  it had, and at every index it holds the returned item where the old item carried the
  id of the returned item, and the old item everywhere else. The id that is matched is
  the one in the answer; the id of the call goes into the path of the request only.
\<close>

theorem C1_only_matching_item_changes:
  assumes "k < length (todos s)"
  shows "length (todos (snd (updateTodo i ttl (Body d) s))) = length (todos s)
       \<and> todos (snd (updateTodo i ttl (Body d) s)) ! k
           = (if todo_id (todos s ! k) = todo_id d then d else todos s ! k)
       \<and> length (todos (snd (toggleTodo i (Body d) s))) = length (todos s)
       \<and> todos (snd (toggleTodo i (Body d) s)) ! k
           = (if todo_id (todos s ! k) = todo_id d then d else todos s ! k)"
  using assms
  by (simp add: updateTodo_fulfilled toggleTodo_fulfilled replaced_length replaced_nth)

theorem C1_only_matching_item_changes_witness:
  "(1::nat) < length (todos booted)
   \<and> todos (snd (toggleTodo 1 (Body (milk\<lparr>completed := True\<rparr>)) booted)) ! 1 = eggs
   \<and> todos (snd (updateTodo 1 ''Buy oat milk'' (Body (milk\<lparr>title := ''Buy oat milk''\<rparr>)) booted)) ! 1
       = eggs"
proof -
  have h: "(1::nat) < length (todos booted)" by (simp add: booted_def)
  show ?thesis
    using h
      C1_only_matching_item_changes [OF h, of 1 "''Buy oat milk''" "milk\<lparr>title := ''Buy oat milk''\<rparr>"]
      C1_only_matching_item_changes [OF h, of 1 "''Buy oat milk''" "milk\<lparr>completed := True\<rparr>"]
    by (simp add: booted_def milk_def eggs_def)
qed

text \<open>
  C9. When the returned item carries an id that no item of the list has, the list after a
  rename or a toggle is the list before.
\<close>

theorem C9_unmatched_answer_keeps_list:
  assumes "\<forall>t \<in> set (todos s). todo_id t \<noteq> todo_id d"
  shows "todos (snd (updateTodo i ttl (Body d) s)) = todos s
       \<and> todos (snd (toggleTodo i (Body d) s)) = todos s"
  using assms by (simp add: updateTodo_fulfilled toggleTodo_fulfilled replaced_unmatched)

theorem C9_unmatched_answer_keeps_list_witness:
  "list_all (\<lambda>t. todo_id t \<noteq> todo_id tea) (todos booted)
   \<and> todos (snd (updateTodo 3 ''Buy green tea'' (Body tea) booted)) = [milk, eggs]
   \<and> todos (snd (toggleTodo 3 (Body tea) booted)) = [milk, eggs]"
proof -
  have h: "\<forall>t \<in> set (todos booted). todo_id t \<noteq> todo_id tea"
    by (simp add: booted_def milk_def eggs_def tea_def)
  show ?thesis
    using h C9_unmatched_answer_keeps_list [OF h, of 3 "''Buy green tea''"]
    by (simp add: booted_def list_all_iff)
qed

subsection \<open>Delete\<close>

text \<open>
  C7. After a delete whose \<open>fetch\<close> did not reject, the items of the list are the items
  it had whose id is not the deleted one; they stand in the order they had, each as often
  as before. When no item has the id, the list is the list before; when ids are unique
  and one item has the id, the list is one item shorter.
\<close>

theorem C7_delete_removes_matching_only:
  assumes "r \<noteq> FetchFails"
  shows "fst (deleteTodo i r s) = Fulfilled
       \<and> set (todos (snd (deleteTodo i r s))) = {t \<in> set (todos s). todo_id t \<noteq> i}
       \<and> subseq (todos (snd (deleteTodo i r s))) (todos s)
       \<and> (\<forall>t. todo_id t \<noteq> i \<longrightarrow>
             count_list (todos (snd (deleteTodo i r s))) t = count_list (todos s) t)
       \<and> ((\<forall>t \<in> set (todos s). todo_id t \<noteq> i) \<longrightarrow> todos (snd (deleteTodo i r s)) = todos s)
       \<and> (distinct (map todo_id (todos s)) \<and> i \<in> todo_id ` set (todos s) \<longrightarrow>
             Suc (length (todos (snd (deleteTodo i r s)))) = length (todos s))"
proof -
  have t: "todos (snd (deleteTodo i r s)) = removed i (todos s)"
    and f: "fst (deleteTodo i r s) = Fulfilled"
    using assms by (simp_all add: deleteTodo_fulfilled)
  have 1: "set (removed i (todos s)) = {t \<in> set (todos s). todo_id t \<noteq> i}"
    by (simp add: removed_def)
  have 2: "subseq (removed i (todos s)) (todos s)"
    by (simp add: removed_def)
  have 3: "\<forall>t. todo_id t \<noteq> i \<longrightarrow> count_list (removed i (todos s)) t = count_list (todos s) t"
    by (simp add: removed_def count_list_filter_if)
  have 4: "(\<forall>t \<in> set (todos s). todo_id t \<noteq> i) \<longrightarrow> removed i (todos s) = todos s"
    by (simp add: removed_def)
  have 5: "distinct (map todo_id (todos s)) \<and> i \<in> todo_id ` set (todos s) \<longrightarrow>
             Suc (length (removed i (todos s))) = length (todos s)"
    unfolding removed_def using filter_drops_one [of todo_id "todos s" i] by blast
  from f 1 2 3 4 5 show ?thesis unfolding t by blast
qed

theorem C7_delete_removes_matching_only_witness:
  "(BodyNotJson :: unit reply) \<noteq> FetchFails
   \<and> distinct (map todo_id (todos booted))
   \<and> 1 \<in> todo_id ` set (todos booted)
   \<and> todo_id eggs \<noteq> 1
   \<and> list_all (\<lambda>t. todo_id t \<noteq> 3) (todos booted)
   \<and> length (todos (snd (deleteTodo 1 (BodyNotJson :: unit reply) booted))) = 1
   \<and> count_list (todos (snd (deleteTodo 1 (BodyNotJson :: unit reply) booted))) eggs = 1
   \<and> set (todos (snd (deleteTodo 1 (BodyNotJson :: unit reply) booted))) = {eggs}
   \<and> todos (snd (deleteTodo 3 (BodyNotJson :: unit reply) booted)) = [milk, eggs]"
proof -
  have h: "(BodyNotJson :: unit reply) \<noteq> FetchFails" by simp
  have ids: "todo_id milk = 1" "todo_id eggs = 2" by (simp_all add: milk_def eggs_def)
  have ne: "milk \<noteq> eggs" by (simp add: milk_def eggs_def)
  have "{t. (t = milk \<or> t = eggs) \<and> todo_id t \<noteq> 1} = {eggs}"
    using ids by auto
  then show ?thesis
    using h ne
      C7_delete_removes_matching_only [OF h, of 1 booted]
      C7_delete_removes_matching_only [OF h, of 3 booted]
    by (simp add: booted_def ids)
qed

subsection \<open>Order\<close>

text \<open>
  C10. Take two positions \<open>k < l\<close> of the list. After the append both items stand where
  they stood. After the replacement by id the list has the same length and each of the
  two positions holds its old item, or the returned item in its place. After the removal
  by id, when both items are kept, the item of \<open>k\<close> still stands before the item of
  \<open>l\<close>. These are the updaters the handlers give to \<open>setTodos\<close> (\<open>addTodo_fulfilled\<close>,
  \<open>updateTodo_fulfilled\<close>, \<open>toggleTodo_fulfilled\<close>, \<open>deleteTodo_fulfilled\<close>).
\<close>

theorem C10_patches_keep_order:
  assumes "k < l" and "l < length prev"
  shows "appended d prev ! k = prev ! k \<and> appended d prev ! l = prev ! l
       \<and> length (replaced d prev) = length prev
       \<and> replaced d prev ! k = (if todo_id (prev ! k) = todo_id d then d else prev ! k)
       \<and> replaced d prev ! l = (if todo_id (prev ! l) = todo_id d then d else prev ! l)
       \<and> (todo_id (prev ! k) \<noteq> i \<and> todo_id (prev ! l) \<noteq> i \<longrightarrow>
            index_after_removed i prev k < index_after_removed i prev l
          \<and> index_after_removed i prev l < length (removed i prev)
          \<and> removed i prev ! index_after_removed i prev k = prev ! k
          \<and> removed i prev ! index_after_removed i prev l = prev ! l)"
proof -
  from assms have kl: "k < length prev" by simp
  have a: "appended d prev ! k = prev ! k \<and> appended d prev ! l = prev ! l"
    using assms kl by (simp add: appended_def nth_append)
  have b: "length (replaced d prev) = length prev
       \<and> replaced d prev ! k = (if todo_id (prev ! k) = todo_id d then d else prev ! k)
       \<and> replaced d prev ! l = (if todo_id (prev ! l) = todo_id d then d else prev ! l)"
    using assms kl by (simp add: replaced_length replaced_nth)
  have c: "index_after_removed i prev k < index_after_removed i prev l
          \<and> index_after_removed i prev l < length (removed i prev)
          \<and> removed i prev ! index_after_removed i prev k = prev ! k
          \<and> removed i prev ! index_after_removed i prev l = prev ! l"
    if "todo_id (prev ! k) \<noteq> i" and "todo_id (prev ! l) \<noteq> i"
    unfolding index_after_removed_def removed_def
    using filter_take_mono [of k l prev "\<lambda>t. todo_id t \<noteq> i"]
      filter_nth_kept [of k prev "\<lambda>t. todo_id t \<noteq> i"]
      filter_nth_kept [of l prev "\<lambda>t. todo_id t \<noteq> i"]
      assms kl that
    by simp
  from a b c show ?thesis by blast
qed

theorem C10_patches_keep_order_witness:
  "(0::nat) < 2 \<and> (2::nat) < length [milk, eggs, tea]
   \<and> todo_id ([milk, eggs, tea] ! 0) \<noteq> 2 \<and> todo_id ([milk, eggs, tea] ! 2) \<noteq> 2
   \<and> index_after_removed 2 [milk, eggs, tea] 0 = 0
   \<and> index_after_removed 2 [milk, eggs, tea] 2 = 1
   \<and> removed 2 [milk, eggs, tea] ! 0 = milk
   \<and> removed 2 [milk, eggs, tea] ! 1 = tea
   \<and> appended eggs [milk, eggs, tea] ! 2 = tea
   \<and> replaced (eggs\<lparr>completed := True\<rparr>) [milk, eggs, tea] ! 2 = tea"
proof -
  have h1: "(0::nat) < 2" by simp
  have h2: "(2::nat) < length [milk, eggs, tea]" by simp
  have ids: "todo_id milk = 1" "todo_id eggs = 2" "todo_id tea = 3"
    by (simp_all add: milk_def eggs_def tea_def)
  have ix: "index_after_removed 2 [milk, eggs, tea] 0 = 0"
    "index_after_removed 2 [milk, eggs, tea] 2 = 1"
    by (simp_all add: index_after_removed_def removed_def ids)
  show ?thesis
    using C10_patches_keep_order [OF h1 h2, of "eggs\<lparr>completed := True\<rparr>" 2]
      C10_patches_keep_order [OF h1 h2, of eggs 2] ix
    by (simp add: ids)
qed


end
